theory Spec2Isabelle
  imports Main
begin

section \<open>The Clock: class TimerThread\<close>

text \<open>
  \<^verbatim>\<open>TimerThread.run\<close> runs on a thread of its own while the main thread calls
  \<^verbatim>\<open>stop()\<close> and \<^verbatim>\<open>is_alive()\<close>. The thread is modelled as a small machine that
  executes one statement of \<^verbatim>\<open>run\<close> per step; its position is the line of
  \<^verbatim>\<open>main.py\<close> it is about to execute:
  \<^verbatim>\<open>
  23      remaining = self.duration
  24      while remaining > 0 and not self._stop_event.is_set():
  25          self.callback(remaining)
  26          time.sleep(1)
  27          remaining -= 1
  29      if not self._stop_event.is_set():
  30          self.callback(0)  # Final update
  \<close>
  Python may switch threads between any two statements, so the main thread can act
  between any two steps.
\<close>

datatype pc = L23 | L24 | L25 | L26 | L27 | L29 | L30 | Finished

record timer_thread =
  thread_duration :: int  \<comment> \<open>\<^verbatim>\<open>self.duration\<close>, in seconds\<close>
  is_running :: bool
  stop_event :: bool  \<comment> \<open>\<^verbatim>\<open>self._stop_event\<close>\<close>
  remaining :: int  \<comment> \<open>the local variable of \<^verbatim>\<open>run\<close>\<close>
  at :: pc

text \<open>\<^verbatim>\<open>TimerThread(duration, callback)\<close> followed by \<^verbatim>\<open>start()\<close>: the thread is about
  to execute line 23; \<open>remaining\<close> is not assigned yet (the 0 is never read).\<close>

definition TimerThread :: "int \<Rightarrow> timer_thread" where
  "TimerThread d =
     \<lparr>thread_duration = d * 60, is_running = True, stop_event = False,
      remaining = 0, at = L23\<rparr>"

definition stop :: "timer_thread \<Rightarrow> timer_thread" where
  "stop t = t\<lparr>stop_event := True\<rparr>"

definition is_alive :: "timer_thread \<Rightarrow> bool" where
  "is_alive t = (at t \<noteq> Finished)"

text \<open>One statement of \<^verbatim>\<open>run\<close>. The second component is the argument of the
  callback when the statement is a call of \<^verbatim>\<open>self.callback\<close>.\<close>

definition thread_step :: "timer_thread \<Rightarrow> timer_thread \<times> int option" where
  "thread_step t =
     (case at t of
        L23 \<Rightarrow> (t\<lparr>remaining := thread_duration t, at := L24\<rparr>, None)
      | L24 \<Rightarrow>
          (if remaining t > 0 \<and> \<not> stop_event t then (t\<lparr>at := L25\<rparr>, None)
           else (t\<lparr>at := L29\<rparr>, None))
      | L25 \<Rightarrow> (t\<lparr>at := L26\<rparr>, Some (remaining t))
      | L26 \<Rightarrow> (t\<lparr>at := L27\<rparr>, None)
      | L27 \<Rightarrow> (t\<lparr>remaining := remaining t - 1, at := L24\<rparr>, None)
      | L29 \<Rightarrow>
          (if \<not> stop_event t then (t\<lparr>at := L30\<rparr>, None)
           else (t\<lparr>at := Finished\<rparr>, None))
      | L30 \<Rightarrow> (t\<lparr>at := Finished\<rparr>, Some 0)
      | Finished \<Rightarrow> (t, None))"

text \<open>A Clock seen from outside: its own steps interleaved with calls of \<^verbatim>\<open>stop()\<close>.
  \<open>clock_run\<close> returns the thread and the callbacks it made, in order.\<close>

datatype clock_event = Step | Stop

fun clock_run :: "clock_event list \<Rightarrow> timer_thread \<Rightarrow> timer_thread \<times> int list" where
  "clock_run [] t = (t, [])"
| "clock_run (Step # es) t =
     (case thread_step t of
        (t', cb) \<Rightarrow>
          (case clock_run es t' of
             (t'', cbs) \<Rightarrow> (t'', (case cb of None \<Rightarrow> [] | Some r \<Rightarrow> [r]) @ cbs)))"
| "clock_run (Stop # es) t = clock_run es (stop t)"

section \<open>Reading the duration: Python's int() on text\<close>

text \<open>
  \<^verbatim>\<open>add_task\<close> converts the typed duration with \<^verbatim>\<open>int(duration)\<close> and returns when it
  raises \<^verbatim>\<open>ValueError\<close>. \<open>py_int\<close> is \<^verbatim>\<open>int\<close> on ASCII text in base 10: the whitespace
  of C (tab, line feed, vertical tab, form feed, carriage return, space) is dropped at
  both ends, one sign may lead, and the digits may be grouped by single underscores.
  \<open>None\<close> is \<^verbatim>\<open>ValueError\<close>.

  Outside ASCII \<^verbatim>\<open>int\<close> accepts more (the decimal digits and the spaces of Unicode), and
  recent interpreters refuse more than 4300 digits; \<open>py_int\<close> is \<^verbatim>\<open>int\<close> only on the
  texts \<open>ascii_text\<close> describes, and what is proved of the texts \<^verbatim>\<open>int\<close> rejects is
  proved of those. A text \<open>py_int\<close> accepts has ASCII characters only.
\<close>

definition ascii_text :: "string \<Rightarrow> bool" where
  "ascii_text s = (list_all (\<lambda>c. (of_char c :: nat) < 128) s \<and> length s \<le> 4300)"

definition is_space :: "char \<Rightarrow> bool" where
  "is_space c =
     (let n = (of_char c :: nat) in (9 \<le> n \<and> n \<le> 13) \<or> n = 32)"

definition is_digit :: "char \<Rightarrow> bool" where
  "is_digit c = (let n = (of_char c :: nat) in 48 \<le> n \<and> n \<le> 57)"

definition digit_val :: "char \<Rightarrow> nat" where
  "digit_val c = of_char c - 48"

definition strip :: "string \<Rightarrow> string" where
  "strip s = rev (dropWhile is_space (rev (dropWhile is_space s)))"

fun py_digits_from :: "nat \<Rightarrow> string \<Rightarrow> nat option" where
  "py_digits_from acc [] = Some acc"
| "py_digits_from acc [c] =
     (if is_digit c then Some (10 * acc + digit_val c) else None)"
| "py_digits_from acc (c # d # ds) =
     (if is_digit c then py_digits_from (10 * acc + digit_val c) (d # ds)
      else if c = CHR ''_'' \<and> is_digit d then py_digits_from (10 * acc + digit_val d) ds
      else None)"

definition py_digits :: "string \<Rightarrow> nat option" where
  "py_digits s =
     (case s of
        [] \<Rightarrow> None
      | c # cs \<Rightarrow> if is_digit c then py_digits_from (digit_val c) cs else None)"

definition py_int :: "string \<Rightarrow> int option" where
  "py_int s =
     (case strip s of
        [] \<Rightarrow> None
      | c # cs \<Rightarrow>
          if c = CHR ''-'' then map_option (\<lambda>n. - int n) (py_digits cs)
          else if c = CHR ''+'' then map_option int (py_digits cs)
          else map_option int (py_digits (c # cs)))"

section \<open>The session: class PomodoroApp\<close>

text \<open>
  A task is the dictionary \<^verbatim>\<open>add_task\<close> builds; its values are kept as the source has
  them (the status is a string). The \<^verbatim>\<open>TimerThread\<close> objects the session has created
  live in a store, \<open>threads\<close>, and \<open>current_timer\<close> is a reference into it. Of the
  three panels only the timer panel is kept: \<open>timer_win\<close> is the argument of the last
  \<^verbatim>\<open>display_timer\<close> call. \<^verbatim>\<open>display_menu\<close> and \<^verbatim>\<open>display_tasks\<close> write to the terminal
  and assign no field of the session, so they do not appear. \<^verbatim>\<open>save_to_csv\<close> assigns no
  field either, but its write can fail, and nothing catches that: whether it succeeds
  is an input of \<^verbatim>\<open>add_task\<close>.
\<close>

record task =
  title :: string
  description :: string
  duration :: int
  language :: string
  status :: string

record app =
  tasks :: "task list"
  current_timer :: "nat option"
  threads :: "timer_thread list"
  current_option :: int
  current_language :: int
  timer_win :: "int option"

definition menu_options :: "string list" where
  "menu_options =
     [''Add Task'', ''Start Timer'', ''Pause Timer'', ''Stop Timer'', ''View Tasks'',
      ''Visualize Data'', ''Exit'']"

definition languages :: "string list" where
  "languages = [''Python'', ''Golang'', ''Java'', ''Rust'']"

definition init_app :: app where
  "init_app =
     \<lparr>tasks = [], current_timer = None, threads = [], current_option = 0,
      current_language = 0, timer_win = None\<rparr>"

datatype error = IndexError | OSError

text \<open>Python's \<^verbatim>\<open>xs[i]\<close>: an index below zero counts from the end, and an index out of
  range raises.\<close>

definition getitem :: "'a list \<Rightarrow> int \<Rightarrow> error + 'a" where
  "getitem xs i =
     (if 0 \<le> i \<and> i < int (length xs) then Inr (xs ! nat i)
      else if i < 0 \<and> - int (length xs) \<le> i then Inr (xs ! nat (int (length xs) + i))
      else Inl IndexError)"

definition display_timer :: "int \<Rightarrow> app \<Rightarrow> app" where
  "display_timer r s = s\<lparr>timer_win := Some r\<rparr>"

text \<open>\<^verbatim>\<open>add_task\<close>, given the three texts \<^verbatim>\<open>get_string_input\<close> returns and whether the
  write of \<^verbatim>\<open>save_to_csv\<close> succeeds. An exception leaves the method with the session as
  it is at that moment: the task is appended before \<^verbatim>\<open>save_to_csv\<close> is called.\<close>

definition add_task ::
  "app \<Rightarrow> string \<Rightarrow> string \<Rightarrow> string \<Rightarrow> bool \<Rightarrow> (error \<times> app) + app" where
  "add_task s ttl desc dur saved =
     (case py_int dur of
        None \<Rightarrow> Inr s
      | Some d \<Rightarrow>
          (case getitem languages (current_language s) of
             Inl e \<Rightarrow> Inl (e, s)
           | Inr lang \<Rightarrow>
               (let s' = s\<lparr>tasks := tasks s @
                      [\<lparr>title = ttl, description = desc, duration = d, language = lang,
                        status = ''Not Started''\<rparr>]\<rparr>
                in if saved then Inr s' else Inl (OSError, s'))))"

text \<open>\<open>timer_alive\<close> is the test \<^verbatim>\<open>self.current_timer and self.current_timer.is_alive()\<close>.\<close>

definition timer_alive :: "app \<Rightarrow> bool" where
  "timer_alive s =
     (case current_timer s of
        None \<Rightarrow> False
      | Some i \<Rightarrow> is_alive (threads s ! i))"

definition start_timer :: "app \<Rightarrow> app" where
  "start_timer s =
     (if tasks s = [] then s
      else if timer_alive s then s
      else
        s\<lparr>current_timer := Some (length (threads s)),
          threads := threads s @ [TimerThread (duration (last (tasks s)))],
          tasks := butlast (tasks s) @ [(last (tasks s))\<lparr>status := ''In Progress''\<rparr>]\<rparr>)"

definition pause_timer :: "app \<Rightarrow> app" where
  "pause_timer s =
     (case current_timer s of
        None \<Rightarrow> s
      | Some i \<Rightarrow> s\<lparr>threads := (threads s)[i := stop (threads s ! i)]\<rparr>)"

definition stop_timer :: "app \<Rightarrow> app" where
  "stop_timer s =
     (case current_timer s of
        None \<Rightarrow> s
      | Some i \<Rightarrow> display_timer 0 (s\<lparr>threads := (threads s)[i := stop (threads s ! i)]\<rparr>))"

text \<open>One pass of the \<^verbatim>\<open>while True\<close> loop of \<^verbatim>\<open>run\<close>, for the key \<^verbatim>\<open>getch\<close> returned
  and what \<^verbatim>\<open>add_task\<close> would be given if it is called: the three texts typed and
  whether the write succeeds. An exception ends the loop, with the session as it is
  when it is raised. \<^verbatim>\<open>visualize_data\<close> reads and writes files only (see the section
  on the report).\<close>

definition KEY_UP :: int where "KEY_UP = 259"
definition KEY_DOWN :: int where "KEY_DOWN = 258"
definition KEY_ENTER :: int where "KEY_ENTER = 10"  \<comment> \<open>\<^verbatim>\<open>ord('\n')\<close>\<close>
definition KEY_q :: int where "KEY_q = 113"  \<comment> \<open>\<^verbatim>\<open>ord('q')\<close>\<close>
definition KEY_l :: int where "KEY_l = 108"  \<comment> \<open>\<^verbatim>\<open>ord('l')\<close>\<close>

datatype outcome = Continue app | Break app | Raise error app

type_synonym answers = "string \<times> string \<times> string \<times> bool"

definition activate :: "app \<Rightarrow> answers \<Rightarrow> outcome" where
  "activate s ans =
     (case getitem menu_options (current_option s) of
        Inl e \<Rightarrow> Raise e s
      | Inr opt \<Rightarrow>
          if opt = ''Exit'' then Break s
          else if opt = ''Add Task'' then
            (case ans of
               (ttl, desc, dur, saved) \<Rightarrow>
                 (case add_task s ttl desc dur saved of
                    Inl (e, s') \<Rightarrow> Raise e s'
                  | Inr s' \<Rightarrow> Continue s'))
          else if opt = ''Start Timer'' then Continue (start_timer s)
          else if opt = ''Pause Timer'' then Continue (pause_timer s)
          else if opt = ''Stop Timer'' then Continue (stop_timer s)
          else if opt = ''Visualize Data'' then Continue s
          else Continue s)"

definition run_once :: "app \<Rightarrow> int \<Rightarrow> answers \<Rightarrow> outcome" where
  "run_once s key ans =
     (if key = KEY_UP \<and> current_option s > 0 then
        Continue (s\<lparr>current_option := current_option s - 1\<rparr>)
      else if key = KEY_DOWN \<and> current_option s < int (length menu_options) - 1 then
        Continue (s\<lparr>current_option := current_option s + 1\<rparr>)
      else if key = KEY_ENTER then activate s ans
      else if key = KEY_q then Break s
      else if key = KEY_l then
        Continue (s\<lparr>current_language := (current_language s + 1) mod int (length languages)\<rparr>)
      else Continue s)"

text \<open>
  The session as a whole: the main thread is in the loop, has left it, or has died of
  an exception; the Clock threads step on their own. An event is a key press handled by
  one pass of the loop, or one statement of the thread at an index of the store, whose
  callback is \<^verbatim>\<open>display_timer\<close>.
\<close>

datatype main_thread = Looping | Exited | Crashed error

datatype event = Key int answers | Tick nat

definition tick :: "nat \<Rightarrow> app \<Rightarrow> app" where
  "tick i s =
     (if i < length (threads s) then
        (case thread_step (threads s ! i) of
           (t', cb) \<Rightarrow>
             (case cb of
                None \<Rightarrow> s\<lparr>threads := (threads s)[i := t']\<rparr>
              | Some r \<Rightarrow> display_timer r (s\<lparr>threads := (threads s)[i := t']\<rparr>)))
      else s)"

fun exec_event :: "event \<Rightarrow> main_thread \<times> app \<Rightarrow> main_thread \<times> app" where
  "exec_event (Key k ans) (Looping, s) =
     (case run_once s k ans of
        Continue s' \<Rightarrow> (Looping, s')
      | Break s' \<Rightarrow> (Exited, s')
      | Raise e s' \<Rightarrow> (Crashed e, s'))"
| "exec_event (Key k ans) (m, s) = (m, s)"
| "exec_event (Tick i) (m, s) = (m, tick i s)"

fun exec :: "event list \<Rightarrow> main_thread \<times> app \<Rightarrow> main_thread \<times> app" where
  "exec [] w = w"
| "exec (e # es) w = exec es (exec_event e w)"

section \<open>The report: PomodoroApp.visualize_data\<close>

text \<open>
  \<^verbatim>\<open>visualize_data\<close> walks the directory of a year: month directories, day directories,
  and in them the files whose names end in \<^verbatim>\<open>_tasks.csv\<close>. A file carries the table
  \<^verbatim>\<open>pd.read_csv\<close> makes of it, or \<open>None\<close> when \<^verbatim>\<open>pd.read_csv\<close> raises. Of a table the
  model keeps the names of its columns, whether \<^verbatim>\<open>pd.to_datetime\<close> converts its date
  column, and its rows, which are left abstract.

  \<open>read_record\<close> is the body of the inner \<^verbatim>\<open>try\<close> (lines 228 and 229): it fails when
  \<^verbatim>\<open>pd.read_csv\<close> raises, when the table has no column \<^verbatim>\<open>Tanggal\<close>, and when the dates do
  not convert; the \<^verbatim>\<open>except Exception: continue\<close> then skips the file. After the loop,
  line 243 reads the column \<^verbatim>\<open>Bahasa\<close> of the concatenated tables, which raises
  \<^verbatim>\<open>KeyError\<close> when no table has it. The plotting itself is the parameter \<open>plot\<close>: the
  image saved, or \<open>None\<close> when a call raises. Every exception after the loop is caught by
  the outer \<^verbatim>\<open>except\<close>, which writes a message on the screen.
\<close>

record 'r table =
  columns :: "string list"
  dates_ok :: bool
  rows :: "'r list"

datatype 'r node = File "'r table option" | Dir "(string \<times> 'r node) list"

datatype 'i report = Nothing | Saved 'i | Error_shown

definition endswith :: "string \<Rightarrow> string \<Rightarrow> bool" where
  "endswith s suf = (length suf \<le> length s \<and> drop (length s - length suf) s = suf)"

definition read_record :: "'r node \<Rightarrow> 'r table option" where
  "read_record n =
     (case n of
        File None \<Rightarrow> None
      | File (Some df) \<Rightarrow>
          if ''Tanggal'' \<in> set (columns df) \<and> dates_ok df then Some df else None
      | Dir _ \<Rightarrow> None)"

fun day_frames :: "(string \<times> 'r node) list \<Rightarrow> 'r table list" where
  "day_frames [] = []"
| "day_frames ((file, n) # rest) =
     (if endswith file ''_tasks.csv'' then
        (case read_record n of Some df \<Rightarrow> [df] | None \<Rightarrow> [])
      else []) @ day_frames rest"

fun month_frames :: "(string \<times> 'r node) list \<Rightarrow> 'r table list" where
  "month_frames [] = []"
| "month_frames ((day_dir, n) # rest) =
     (case n of Dir files \<Rightarrow> day_frames files | File _ \<Rightarrow> []) @ month_frames rest"

fun year_frames :: "(string \<times> 'r node) list \<Rightarrow> 'r table list" where
  "year_frames [] = []"
| "year_frames ((month_dir, n) # rest) =
     (case n of Dir days \<Rightarrow> month_frames days | File _ \<Rightarrow> []) @ year_frames rest"

text \<open>The argument \<open>year_folder\<close> is what the path of the year holds: nothing
  (\<^verbatim>\<open>os.path.exists\<close> is false), a plain file (\<^verbatim>\<open>os.listdir\<close> raises), or a directory.\<close>

definition visualize_data ::
  "('r table list \<Rightarrow> 'i option) \<Rightarrow> 'r node option \<Rightarrow> 'i report" where
  "visualize_data plot year_folder =
     (case year_folder of
        None \<Rightarrow> Nothing
      | Some (File _) \<Rightarrow> Error_shown
      | Some (Dir months) \<Rightarrow>
          (let all_tasks_data = year_frames months in
           if all_tasks_data = [] then Nothing
           else if \<not> list_ex (\<lambda>df. ''Bahasa'' \<in> set (columns df)) all_tasks_data
           then Error_shown
           else
             (case plot all_tasks_data of
                None \<Rightarrow> Error_shown
              | Some img \<Rightarrow> Saved img)))"

text \<open>\<open>readable_records months\<close> counts, in the month directories of a year, the
  record files the inner \<^verbatim>\<open>try\<close> reads: the entries of a day directory whose names
  end in \<^verbatim>\<open>_tasks.csv\<close> and on which \<open>read_record\<close> succeeds.\<close>

definition day_records :: "(string \<times> 'r node) list \<Rightarrow> nat" where
  "day_records files =
     length (filter (\<lambda>(file, n). endswith file ''_tasks.csv'' \<and> read_record n \<noteq> None) files)"

definition month_records :: "(string \<times> 'r node) list \<Rightarrow> nat" where
  "month_records days =
     sum_list (map (\<lambda>(day_dir, n). case n of Dir files \<Rightarrow> day_records files | File _ \<Rightarrow> 0) days)"

definition readable_records :: "(string \<times> 'r node) list \<Rightarrow> nat" where
  "readable_records months =
     sum_list
       (map (\<lambda>(month_dir, n). case n of Dir days \<Rightarrow> month_records days | File _ \<Rightarrow> 0) months)"

section \<open>Measures and the invariant of the session\<close>

definition in_progress :: "app \<Rightarrow> nat" where
  "in_progress s = length (filter (\<lambda>t. status t = ''In Progress'') (tasks s))"

definition alive_clocks :: "app \<Rightarrow> nat" where
  "alive_clocks s = length (filter is_alive (threads s))"

text \<open>What every reachable session satisfies: the current timer is the Clock created
  last, every earlier Clock has finished, both selectors are in range, and there are at
  least as many Clocks as tasks in progress.\<close>

definition app_ok :: "app \<Rightarrow> bool" where
  "app_ok s =
     (current_timer s = (if threads s = [] then None else Some (length (threads s) - 1)) \<and>
      list_all (\<lambda>t. at t = Finished) (butlast (threads s)) \<and>
      0 \<le> current_option s \<and> current_option s < int (length menu_options) \<and>
      0 \<le> current_language s \<and> current_language s < int (length languages) \<and>
      in_progress s \<le> length (threads s))"

text \<open>\<open>owed t\<close> is the number of callbacks a Clock whose stop signal is set can
  still make: one when it is about to execute a call of the callback, none otherwise.
  \<open>countdown n\<close> is the sequence of ticks of a countdown from \<open>n\<close> seconds.\<close>

definition owed :: "timer_thread \<Rightarrow> nat" where
  "owed t = (if at t = L25 \<or> at t = L30 then 1 else 0)"

definition countdown :: "nat \<Rightarrow> int list" where
  "countdown n = map int (rev [1..<Suc n]) @ [0]"

text \<open>\<open>appended\<close> is the number of tasks a sequence of activations of \<^verbatim>\<open>Add Task\<close>
  appends: one for each duration \<^verbatim>\<open>int\<close> accepts, up to and including the first whose
  write fails, which ends the session.\<close>

fun appended :: "answers list \<Rightarrow> nat" where
  "appended [] = 0"
| "appended ((ttl, desc, dur, saved) # rest) =
     (if py_int dur = None then appended rest
      else if saved then Suc (appended rest)
      else 1)"

text \<open>Directories of a year. The record file of 3 November has the columns
  \<^verbatim>\<open>save_to_csv\<close> writes and two rows; the one of 2 November cannot be read; the one of
  1 November has a date column and a row but no column \<^verbatim>\<open>Bahasa\<close>.\<close>

definition full_columns :: "string list" where
  "full_columns = [''Tanggal'', ''Judul'', ''Deskripsi'', ''Durasi'', ''Bahasa'', ''Status'']"

definition good_file :: "nat node" where
  "good_file = File (Some \<lparr>columns = full_columns, dates_ok = True, rows = [1, 2]\<rparr>)"

definition malformed_file :: "nat node" where
  "malformed_file =
     File (Some \<lparr>columns = [''Tanggal'', ''Judul''], dates_ok = True, rows = [3]\<rparr>)"

definition year_2026 :: "nat node" where
  "year_2026 =
     Dir [(''November'',
           Dir [(''3'',
                 Dir [(''2026-11-03_tasks.csv'', good_file),
                      (''2026-11-02_tasks.csv'', File None),
                      (''notes.txt'', good_file)])]),
          (''Visualizations'', Dir [(''TaskVisualization_2026.png'', File None)])]"

definition year_unreadable :: "nat node" where
  "year_unreadable =
     Dir [(''November'',
           Dir [(''3'',
                 Dir [(''2026-11-03_tasks.csv'', File None),
                      (''notes.txt'', good_file)])]),
          (''December'', Dir [])]"

definition year_malformed :: "nat node" where
  "year_malformed =
     Dir [(''November'', Dir [(''1'', Dir [(''2026-11-01_tasks.csv'', malformed_file)])])]"

definition year_mixed :: "nat node" where
  "year_mixed =
     Dir [(''November'',
           Dir [(''1'', Dir [(''2026-11-01_tasks.csv'', malformed_file)]),
                (''3'', Dir [(''2026-11-03_tasks.csv'', good_file)])])]"

definition year_mixed_without :: "nat node" where
  "year_mixed_without =
     Dir [(''November'',
           Dir [(''1'', Dir []),
                (''3'', Dir [(''2026-11-03_tasks.csv'', good_file)])])]"

text \<open>A plot that succeeds and shows how many rows it was given.\<close>

definition count_rows :: "nat table list \<Rightarrow> nat option" where
  "count_rows dfs = Some (length (concat (map rows dfs)))"

section \<open>Scenarios\<close>

text \<open>The sessions the examples below run: a task of 25 minutes is added, its timer
  is started, and the timer is stopped or left to run.\<close>

definition press :: "int \<Rightarrow> event" where
  "press k = Key k ([], [], [], True)"

definition add_parser :: event where
  "add_parser = Key KEY_ENTER (''Write parser'', ''impl'', ''25'', True)"

definition scenario_A :: "main_thread \<times> app" where
  "scenario_A = exec [add_parser] (Looping, init_app)"

definition scenario_B :: "main_thread \<times> app" where
  "scenario_B = exec [press KEY_DOWN, press KEY_ENTER] scenario_A"

text \<open>Ten ticks after the start (41 statements of the Clock) the user moves to
  \<^verbatim>\<open>Stop Timer\<close> and activates it; then the Clock runs to its end; then a second task is
  added and its timer is started.\<close>

definition scenario_D :: "main_thread \<times> app" where
  "scenario_D =
     exec (replicate 41 (Tick 0) @ [press KEY_DOWN, press KEY_DOWN, press KEY_ENTER]) scenario_B"

definition scenario_D_ended :: "main_thread \<times> app" where
  "scenario_D_ended = exec [Tick 0, Tick 0] scenario_D"

definition scenario_second_task :: "main_thread \<times> app" where
  "scenario_second_task =
     exec [press KEY_UP, press KEY_UP, press KEY_UP,
           Key KEY_ENTER (''Write tests'', ''unit'', ''5'', True),
           press KEY_DOWN, press KEY_ENTER] scenario_D_ended"

section \<open>The invariant holds in every reachable session\<close>

lemma thread_step_Finished: "at t = Finished \<Longrightarrow> thread_step t = (t, None)"
  by (simp add: thread_step_def)

lemma app_ok_init: "app_ok init_app"
  by (simp add: app_ok_def init_app_def in_progress_def menu_options_def languages_def)

lemma tick_fields:
  "tasks (tick i s) = tasks s"
  "current_timer (tick i s) = current_timer s"
  "current_option (tick i s) = current_option s"
  "current_language (tick i s) = current_language s"
  "length (threads (tick i s)) = length (threads s)"
  by (auto simp: tick_def display_timer_def split: prod.splits option.splits)

lemma tick_threads:
  "threads (tick i s) =
     (if i < length (threads s) then (threads s)[i := fst (thread_step (threads s ! i))]
      else threads s)"
  by (auto simp: tick_def display_timer_def split: prod.splits option.splits)

lemma app_ok_tick: "app_ok s \<Longrightarrow> app_ok (tick i s)"
  unfolding app_ok_def in_progress_def
  apply (simp add: tick_fields)
  apply (simp add: tick_threads butlast_list_update)
  apply (auto simp: list_all_length nth_list_update nth_butlast thread_step_Finished)
  done

lemma getitem_menu:
  "0 \<le> i \<Longrightarrow> i < int (length menu_options) \<Longrightarrow>
     getitem menu_options i = Inr (menu_options ! nat i)"
  by (simp add: getitem_def)

lemma getitem_languages:
  "0 \<le> i \<Longrightarrow> i < int (length languages) \<Longrightarrow>
     getitem languages i = Inr (languages ! nat i)"
  by (simp add: getitem_def)

lemma app_ok_add_task:
  "app_ok s \<Longrightarrow>
     (case add_task s a b c saved of
        Inr s' \<Rightarrow> app_ok s'
      | Inl (e, s') \<Rightarrow> e = OSError \<and> app_ok s')"
  by (auto simp: add_task_def getitem_languages app_ok_def in_progress_def Let_def
      split: option.splits)

lemma filter_butlast_le: "length (filter P (butlast xs)) \<le> length (filter P xs)"
  by (induction xs) auto

lemma all_finished:
  assumes "app_ok s" and "\<not> timer_alive s"
  shows "list_all (\<lambda>t. at t = Finished) (threads s)"
proof (cases "threads s = []")
  case True
  then show ?thesis by simp
next
  case False
  with assms have "at (last (threads s)) = Finished"
    by (simp add: app_ok_def timer_alive_def is_alive_def last_conv_nth)
  moreover from assms have "list_all (\<lambda>t. at t = Finished) (butlast (threads s))"
    by (simp add: app_ok_def)
  ultimately have
    "list_all (\<lambda>t. at t = Finished) (butlast (threads s) @ [last (threads s)])"
    by simp
  with False show ?thesis by simp
qed

lemma app_ok_start_timer:
  assumes "app_ok s"
  shows "app_ok (start_timer s)"
proof (cases "tasks s = [] \<or> timer_alive s")
  case True
  with assms show ?thesis by (auto simp: start_timer_def)
next
  case False
  then have fin: "list_all (\<lambda>t. at t = Finished) (threads s)"
    using assms all_finished by blast
  have "length (filter (\<lambda>t. status t = ''In Progress'') (butlast (tasks s))) \<le> in_progress s"
    unfolding in_progress_def by (rule filter_butlast_le)
  with assms have "in_progress (start_timer s) \<le> Suc (length (threads s))"
    using False by (simp add: start_timer_def in_progress_def app_ok_def)
  with assms fin False show ?thesis
    by (simp add: start_timer_def app_ok_def)
qed

lemma app_ok_pause_timer: "app_ok s \<Longrightarrow> app_ok (pause_timer s)"
  by (auto simp: pause_timer_def app_ok_def in_progress_def butlast_list_update
      split: option.splits if_splits)

lemma app_ok_stop_timer: "app_ok s \<Longrightarrow> app_ok (stop_timer s)"
  by (auto simp: stop_timer_def display_timer_def app_ok_def in_progress_def
      butlast_list_update split: option.splits if_splits)

lemma app_ok_activate:
  "app_ok s \<Longrightarrow>
     (case activate s ans of
        Continue s' \<Rightarrow> app_ok s'
      | Break s' \<Rightarrow> s' = s
      | Raise e s' \<Rightarrow> e = OSError \<and> app_ok s')"
  using app_ok_add_task[of s "fst ans" "fst (snd ans)" "fst (snd (snd ans))" "snd (snd (snd ans))"]
  by (auto simp: activate_def getitem_menu app_ok_def[of s] app_ok_start_timer
      app_ok_pause_timer app_ok_stop_timer split: prod.splits sum.splits)

lemma app_ok_cycle:
  "app_ok s \<Longrightarrow>
     app_ok (s\<lparr>current_language := (current_language s + 1) mod int (length languages)\<rparr>)"
  by (simp add: app_ok_def in_progress_def languages_def)

lemma app_ok_move:
  "app_ok s \<Longrightarrow> 0 \<le> i \<Longrightarrow> i < int (length menu_options) \<Longrightarrow>
     app_ok (s\<lparr>current_option := i\<rparr>)"
  by (simp add: app_ok_def in_progress_def)

lemma app_ok_run_once:
  assumes "app_ok s"
  shows "(case run_once s k ans of
        Continue s' \<Rightarrow> app_ok s'
      | Break s' \<Rightarrow> s' = s
      | Raise e s' \<Rightarrow> e = OSError \<and> app_ok s')"
proof -
  have range: "0 \<le> current_option s" "current_option s < int (length menu_options)"
    using assms by (simp_all add: app_ok_def)
  show ?thesis
    using app_ok_activate[OF assms, of ans] app_ok_cycle[OF assms] assms range
    by (simp add: run_once_def app_ok_move)
qed

lemma app_ok_exec_event:
  assumes "app_ok (snd w)" and "fst w \<noteq> Crashed IndexError"
  shows "app_ok (snd (exec_event ev w)) \<and> fst (exec_event ev w) \<noteq> Crashed IndexError"
proof (cases ev)
  case (Key k ans)
  obtain m s where w: "w = (m, s)" by (cases w)
  show ?thesis
  proof (cases m)
    case Looping
    with Key w assms app_ok_run_once[of s k ans] show ?thesis
      by (auto split: outcome.splits)
  next
    case Exited
    with Key w assms show ?thesis by simp
  next
    case (Crashed e)
    with Key w assms show ?thesis by simp
  qed
next
  case (Tick i)
  with assms show ?thesis by (cases w) (simp add: app_ok_tick)
qed

lemma app_ok_exec:
  "app_ok (snd w) \<Longrightarrow> fst w \<noteq> Crashed IndexError \<Longrightarrow>
     app_ok (snd (exec evs w)) \<and> fst (exec evs w) \<noteq> Crashed IndexError"
proof (induction evs arbitrary: w)
  case Nil
  then show ?case by simp
next
  case (Cons ev evs)
  have "app_ok (snd (exec_event ev w)) \<and> fst (exec_event ev w) \<noteq> Crashed IndexError"
    using Cons.prems by (rule app_ok_exec_event)
  then show ?case using Cons.IH by simp
qed

lemma reachable_ok:
  "exec evs (Looping, init_app) = (m, s) \<Longrightarrow> app_ok s \<and> m \<noteq> Crashed IndexError"
  using app_ok_exec[of "(Looping, init_app)" evs] app_ok_init by simp

section \<open>Frame lemmas of the commands\<close>

lemmas keys = KEY_UP_def KEY_DOWN_def KEY_ENTER_def KEY_q_def KEY_l_def

lemma add_task_frame:
  "add_task s a b c saved = Inr s' \<Longrightarrow>
     current_option s' = current_option s \<and> current_language s' = current_language s \<and>
     current_timer s' = current_timer s \<and> threads s' = threads s \<and> timer_win s' = timer_win s"
  "add_task s a b c saved = Inl (e, s') \<Longrightarrow>
     current_option s' = current_option s \<and> current_language s' = current_language s \<and>
     current_timer s' = current_timer s \<and> threads s' = threads s \<and> timer_win s' = timer_win s"
  by (auto simp: add_task_def Let_def split: option.splits sum.splits if_splits)

lemma timer_ops_option:
  "current_option (start_timer s) = current_option s"
  "current_option (pause_timer s) = current_option s"
  "current_option (stop_timer s) = current_option s"
  by (auto simp: start_timer_def pause_timer_def stop_timer_def display_timer_def
      split: option.splits)

lemma activate_option:
  "activate s ans = Continue s' \<or> activate s ans = Break s' \<or> activate s ans = Raise e s' \<Longrightarrow>
     current_option s' = current_option s"
  by (auto simp: activate_def timer_ops_option split: sum.splits prod.splits if_splits
      dest: add_task_frame)

lemma run_once_other_key:
  "k \<noteq> KEY_UP \<Longrightarrow> k \<noteq> KEY_DOWN \<Longrightarrow>
     current_option (snd (exec_event (Key k ans) (Looping, s))) = current_option s"
  using activate_option[of s ans]
  by (auto simp: run_once_def split: outcome.splits)

section \<open>C8: the menu selection\<close>

text \<open>
  C8. In every reachable session the selected menu entry \<open>current_option\<close> lies in
  \<open>[0, option_count - 1]\<close>. The up key moves it down by one and leaves it at 0 when it
  is 0, the down key moves it up by one and leaves it at the last entry when it is
  there: the selection clamps and never wraps. No other key and no step of a Clock
  changes it.
\<close>

theorem menu_selection_clamps:
  assumes "exec evs (Looping, init_app) = (m, s)"
  shows "0 \<le> current_option s \<and> current_option s \<le> int (length menu_options) - 1 \<and>
     current_option (snd (exec_event (Key KEY_UP ans) (Looping, s))) =
       max 0 (current_option s - 1) \<and>
     current_option (snd (exec_event (Key KEY_DOWN ans) (Looping, s))) =
       min (int (length menu_options) - 1) (current_option s + 1) \<and>
     (\<forall>k. k \<noteq> KEY_UP \<and> k \<noteq> KEY_DOWN \<longrightarrow>
        current_option (snd (exec_event (Key k ans) (Looping, s))) = current_option s) \<and>
     current_option (snd (exec_event (Tick i) (m, s))) = current_option s"
proof -
  from assms have ok: "app_ok s" using reachable_ok by blast
  then have range: "0 \<le> current_option s" "current_option s \<le> int (length menu_options) - 1"
    by (simp_all add: app_ok_def)
  have up: "current_option (snd (exec_event (Key KEY_UP ans) (Looping, s))) =
      max 0 (current_option s - 1)"
    using range by (simp add: run_once_def keys)
  have down: "current_option (snd (exec_event (Key KEY_DOWN ans) (Looping, s))) =
      min (int (length menu_options) - 1) (current_option s + 1)"
    using range by (simp add: run_once_def keys)
  have other: "\<forall>k. k \<noteq> KEY_UP \<and> k \<noteq> KEY_DOWN \<longrightarrow>
        current_option (snd (exec_event (Key k ans) (Looping, s))) = current_option s"
    using run_once_other_key by blast
  have tk: "current_option (snd (exec_event (Tick i) (m, s))) = current_option s"
    by (simp add: tick_fields)
  from range up down other tk show ?thesis by blast
qed

theorem menu_selection_clamps_witness:
  "exec (replicate 7 (press KEY_DOWN)) (Looping, init_app) =
     (Looping, init_app\<lparr>current_option := 6\<rparr>) \<and>
   current_option (snd (exec_event (Key KEY_DOWN ([], [], [], True)) (Looping, init_app\<lparr>current_option := 6\<rparr>))) = 6 \<and>
   current_option (snd (exec_event (Key KEY_UP ([], [], [], True)) (Looping, init_app))) = 0 \<and>
   current_option (snd (exec_event (Key KEY_l ([], [], [], True)) (Looping, init_app\<lparr>current_option := 6\<rparr>))) = 6"
proof -
  have run: "exec (replicate 7 (press KEY_DOWN)) (Looping, init_app) =
     (Looping, init_app\<lparr>current_option := 6\<rparr>)"
    by (simp add: numeral_eq_Suc press_def run_once_def keys init_app_def menu_options_def)
  have nil: "exec [] (Looping, init_app) = (Looping, init_app)" by simp
  have l: "KEY_l \<noteq> KEY_UP \<and> KEY_l \<noteq> KEY_DOWN" by (simp add: keys)
  from menu_selection_clamps[OF run, of "([], [], [], True)"] menu_selection_clamps[OF nil, of "([], [], [], True)"] run l
  show ?thesis by (simp add: menu_options_def init_app_def)
qed

section \<open>C10: the language of a task\<close>

text \<open>
  C10. The key \<open>l\<close> changes only the language selector, which advances by one modulo
  the number of languages: in every state the task list, the language of every task,
  the timer and the menu selection stay as they are. A task added in a reachable
  session carries the language the selector points at when it is added, whether or not
  the write of the record file that follows succeeds.
\<close>

theorem language_snapshot_and_cycle:
  assumes "exec evs (Looping, init_app) = (m, s)"
  shows
    "(case run_once s0 KEY_l ans of
        Continue s' \<Rightarrow>
          current_language s' = (current_language s0 + 1) mod int (length languages) \<and>
          tasks s' = tasks s0 \<and> map language (tasks s') = map language (tasks s0) \<and>
          current_timer s' = current_timer s0 \<and> threads s' = threads s0 \<and>
          timer_win s' = timer_win s0 \<and> current_option s' = current_option s0
      | Break s' \<Rightarrow> False
      | Raise e s' \<Rightarrow> False) \<and>
     (\<forall>d. py_int dur = Some d \<longrightarrow>
        add_task s ttl desc dur True =
          Inr (s\<lparr>tasks := tasks s @
                 [\<lparr>title = ttl, description = desc, duration = d,
                   language = languages ! nat (current_language s),
                   status = ''Not Started''\<rparr>]\<rparr>) \<and>
        add_task s ttl desc dur False =
          Inl (OSError,
               s\<lparr>tasks := tasks s @
                 [\<lparr>title = ttl, description = desc, duration = d,
                   language = languages ! nat (current_language s),
                   status = ''Not Started''\<rparr>]\<rparr>))"
proof -
  from assms have "app_ok s" using reachable_ok by blast
  then have "getitem languages (current_language s) = Inr (languages ! nat (current_language s))"
    by (simp add: app_ok_def getitem_languages)
  then have add: "\<forall>d. py_int dur = Some d \<longrightarrow>
        add_task s ttl desc dur True =
          Inr (s\<lparr>tasks := tasks s @
                 [\<lparr>title = ttl, description = desc, duration = d,
                   language = languages ! nat (current_language s),
                   status = ''Not Started''\<rparr>]\<rparr>) \<and>
        add_task s ttl desc dur False =
          Inl (OSError,
               s\<lparr>tasks := tasks s @
                 [\<lparr>title = ttl, description = desc, duration = d,
                   language = languages ! nat (current_language s),
                   status = ''Not Started''\<rparr>]\<rparr>)"
    by (simp add: add_task_def)
  have "run_once s0 KEY_l ans =
      Continue (s0\<lparr>current_language := (current_language s0 + 1) mod int (length languages)\<rparr>)"
    by (simp add: run_once_def keys)
  with add show ?thesis by simp
qed

lemma py_int_25: "py_int ''25'' = Some 25"
  by (simp add: py_int_def strip_def is_space_def py_digits_def is_digit_def digit_val_def)

theorem language_snapshot_and_cycle_witness:
  "exec [press KEY_l] (Looping, init_app) = (Looping, init_app\<lparr>current_language := 1\<rparr>) \<and>
   py_int ''25'' = Some 25 \<and>
   add_task (init_app\<lparr>current_language := 1\<rparr>) ''Write parser'' ''impl'' ''25'' True =
     Inr (init_app\<lparr>current_language := 1,
           tasks := [\<lparr>title = ''Write parser'', description = ''impl'', duration = 25,
                      language = ''Golang'', status = ''Not Started''\<rparr>]\<rparr>) \<and>
   add_task (init_app\<lparr>current_language := 1\<rparr>) ''Write parser'' ''impl'' ''25'' False =
     Inl (OSError,
          init_app\<lparr>current_language := 1,
           tasks := [\<lparr>title = ''Write parser'', description = ''impl'', duration = 25,
                      language = ''Golang'', status = ''Not Started''\<rparr>]\<rparr>) \<and>
   run_once (init_app\<lparr>current_language := 3\<rparr>) KEY_l ([], [], [], True) = Continue init_app"
proof -
  have run: "exec [press KEY_l] (Looping, init_app) = (Looping, init_app\<lparr>current_language := 1\<rparr>)"
    by (simp add: press_def run_once_def keys init_app_def languages_def)
  have cyc: "run_once (init_app\<lparr>current_language := 3\<rparr>) KEY_l ([], [], [], True) = Continue init_app"
    by (simp add: run_once_def keys init_app_def languages_def)
  from language_snapshot_and_cycle[OF run, of _ _ "''25''" "''Write parser''" "''impl''"]
    py_int_25 run cyc
  show ?thesis by (simp add: init_app_def languages_def)
qed

section \<open>The Clock on its own\<close>

lemma clock_run_Finished: "at t = Finished \<Longrightarrow> clock_run (replicate k Step) t = (t, [])"
  by (induction k) (simp_all add: thread_step_Finished)

lemma clock_run_append:
  "clock_run (es @ fs) t =
     (case clock_run es t of (t', cbs) \<Rightarrow>
        (case clock_run fs t' of (t'', cbs') \<Rightarrow> (t'', cbs @ cbs')))"
proof (induction es arbitrary: t)
  case Nil
  then show ?case by simp
next
  case (Cons e es)
  then show ?case by (cases e) (simp_all split: prod.splits)
qed

lemma stopped_step:
  assumes "stop_event t" and "thread_step t = (t', cb)"
  shows "stop_event t' \<and> length (case cb of None \<Rightarrow> [] | Some r \<Rightarrow> [r]) + owed t' \<le> owed t"
  using assms by (cases "at t") (auto simp: thread_step_def owed_def)

lemma stopped_callbacks: "stop_event t \<Longrightarrow> length (snd (clock_run es t)) \<le> owed t"
proof (induction es arbitrary: t)
  case Nil
  then show ?case by simp
next
  case (Cons e es)
  show ?case
  proof (cases e)
    case Step
    obtain t' cb where st: "thread_step t = (t', cb)" by (cases "thread_step t")
    from stopped_step[OF Cons.prems st]
    have s': "stop_event t'"
      and le: "length (case cb of None \<Rightarrow> [] | Some r \<Rightarrow> [r]) + owed t' \<le> owed t"
      by simp_all
    from Cons.IH[OF s'] have "length (snd (clock_run es t')) \<le> owed t'" .
    with le st Step show ?thesis by (auto split: prod.splits)
  next
    case Stop
    have "stop_event (stop t)" by (simp add: stop_def)
    from Cons.IH[OF this] have "length (snd (clock_run es (stop t))) \<le> owed (stop t)" .
    with Stop show ?thesis by (simp add: owed_def stop_def)
  qed
qed

lemma countdown_Suc: "countdown (Suc n) = int (Suc n) # countdown n"
  by (simp add: countdown_def)

lemma four_steps: "replicate (4 * Suc n + 3) x = x # x # x # x # replicate (4 * n + 3) x"
  by (simp add: numeral_eq_Suc)

lemma loop_runs_down:
  "at t = L24 \<Longrightarrow> \<not> stop_event t \<Longrightarrow> remaining t = int n \<Longrightarrow>
     clock_run (replicate (4 * n + 3) Step) t = (t\<lparr>remaining := 0, at := Finished\<rparr>, countdown n)"
proof (induction n arbitrary: t)
  case 0
  then show ?case by (simp add: numeral_eq_Suc thread_step_def countdown_def)
next
  case (Suc n)
  let ?u = "t\<lparr>remaining := int n, at := L24\<rparr>"
  have u: "at ?u = L24" "\<not> stop_event ?u" "remaining ?u = int n"
    using Suc.prems by simp_all
  have "clock_run (replicate (4 * Suc n + 3) Step) t =
      (case clock_run (replicate (4 * n + 3) Step) ?u of
         (t'', cbs) \<Rightarrow> (t'', int (Suc n) # cbs))"
    unfolding four_steps using Suc.prems
    by (simp add: thread_step_def split: prod.splits)
  also have "\<dots> = (?u\<lparr>remaining := 0, at := Finished\<rparr>, int (Suc n) # countdown n)"
    using Suc.IH[OF u] by simp
  finally show ?case by (simp add: countdown_Suc)
qed


lemma loop_skipped:
  "at t = L24 \<Longrightarrow> \<not> stop_event t \<Longrightarrow> remaining t \<le> 0 \<Longrightarrow>
     clock_run (replicate 3 Step) t = (t\<lparr>at := Finished\<rparr>, [0])"
  by (simp add: numeral_eq_Suc thread_step_def)

lemma expiry_run:
  "clock_run (replicate (4 * nat (d * 60) + 4 + k) Step) (TimerThread d) =
     ((TimerThread d)\<lparr>remaining := min 0 (d * 60), at := Finished\<rparr>, countdown (nat (d * 60)))"
proof -
  let ?n = "nat (d * 60)"
  let ?t = "(TimerThread d)\<lparr>remaining := d * 60, at := L24\<rparr>"
  let ?f = "(TimerThread d)\<lparr>remaining := min 0 (d * 60), at := Finished\<rparr>"
  have first: "thread_step (TimerThread d) = (?t, None)"
    by (simp add: thread_step_def TimerThread_def)
  have loop: "clock_run (replicate (4 * ?n + 3) Step) ?t = (?f, countdown ?n)"
  proof (cases "0 \<le> d * 60")
    case True
    then have "remaining ?t = int ?n" by simp
    with loop_runs_down[of ?t ?n] True show ?thesis by (simp add: TimerThread_def)
  next
    case False
    then have "clock_run (replicate 3 Step) ?t = (?t\<lparr>at := Finished\<rparr>, [0])"
      by (intro loop_skipped) (simp_all add: TimerThread_def)
    with False show ?thesis by (simp add: countdown_def TimerThread_def)
  qed
  have "4 * ?n + 4 + k = Suc ((4 * ?n + 3) + k)" by simp
  then have "replicate (4 * ?n + 4 + k) Step =
      Step # (replicate (4 * ?n + 3) Step @ replicate k Step)"
    by (simp only: replicate_Suc replicate_add)
  then show ?thesis
    using first loop clock_run_Finished[of ?f k] by (simp add: clock_run_append)
qed

lemma count_countdown: "count_list (countdown n) 0 = 1"
  by (induction n) (simp_all add: countdown_Suc, simp add: countdown_def)

lemma ticks_as_clock_run:
  "i < length (threads s) \<Longrightarrow>
     exec (replicate n (Tick i)) (m, s) =
       (m, (case clock_run (replicate n Step) (threads s ! i) of
              (t', cbs) \<Rightarrow>
                s\<lparr>threads := (threads s)[i := t'],
                  timer_win := (if cbs = [] then timer_win s else Some (last cbs))\<rparr>))"
proof (induction n arbitrary: s)
  case 0
  then show ?case by simp
next
  case (Suc n)
  obtain t1 cb where st: "thread_step (threads s ! i) = (t1, cb)"
    by (cases "thread_step (threads s ! i)")
  obtain t' cbs where run: "clock_run (replicate n Step) t1 = (t', cbs)"
    by (cases "clock_run (replicate n Step) t1")
  have len: "i < length (threads (tick i s))" using Suc.prems by (simp add: tick_fields)
  have nth: "threads (tick i s) ! i = t1" using Suc.prems st by (simp add: tick_threads)
  have "exec (replicate (Suc n) (Tick i)) (m, s) = exec (replicate n (Tick i)) (m, tick i s)"
    by simp
  also have "\<dots> = (m, (tick i s)\<lparr>threads := (threads (tick i s))[i := t'],
                  timer_win := (if cbs = [] then timer_win (tick i s) else Some (last cbs))\<rparr>)"
    using Suc.IH[OF len] nth run by simp
  finally show ?case
    using Suc.prems st run
    by (cases cb) (simp_all add: tick_def display_timer_def)
qed


section \<open>C5: callbacks after stop()\<close>

text \<open>
  C5, as the code has it. Once \<^verbatim>\<open>stop()\<close> has been called the Clock makes at most one
  more callback, whatever else happens: the one whose test of the stop signal (line 24 or
  line 29) had passed before the call. A Clock that is at any other statement when
  \<^verbatim>\<open>stop()\<close> is called makes no callback any more, so a stop that comes before the
  last test suppresses the final tick. A Clock that is never stopped ticks
  \<open>duration, ..., 1\<close> and then 0, once, and nothing after that.
\<close>

theorem callbacks_after_stop:
  "(stop_event t \<longrightarrow> length (snd (clock_run es t)) \<le> 1) \<and>
   (stop_event t \<and> at t \<noteq> L25 \<and> at t \<noteq> L30 \<longrightarrow> snd (clock_run es t) = []) \<and>
   snd (clock_run (replicate (4 * nat (d * 60) + 4 + k) Step) (TimerThread d)) =
     countdown (nat (d * 60)) \<and>
   count_list (countdown (nat (d * 60))) 0 = 1"
proof -
  have one: "stop_event t \<longrightarrow> length (snd (clock_run es t)) \<le> 1"
  proof
    assume "stop_event t"
    then have "length (snd (clock_run es t)) \<le> owed t" by (rule stopped_callbacks)
    also have "owed t \<le> 1" by (simp add: owed_def)
    finally show "length (snd (clock_run es t)) \<le> 1" .
  qed
  have none: "stop_event t \<and> at t \<noteq> L25 \<and> at t \<noteq> L30 \<longrightarrow> snd (clock_run es t) = []"
  proof
    assume a: "stop_event t \<and> at t \<noteq> L25 \<and> at t \<noteq> L30"
    then have "length (snd (clock_run es t)) \<le> owed t" using stopped_callbacks by blast
    with a show "snd (clock_run es t) = []" by (simp add: owed_def)
  qed
  from one none show ?thesis by (simp add: expiry_run count_countdown)
qed

theorem callbacks_after_stop_witness:
  "stop_event (stop (TimerThread 1)) \<and> at (stop (TimerThread 1)) \<noteq> L25 \<and>
   at (stop (TimerThread 1)) \<noteq> L30 \<and>
   length (snd (clock_run [Step, Step, Step] (stop (TimerThread 1)))) \<le> 1 \<and>
   snd (clock_run [Step, Step, Step] (stop (TimerThread 1))) = [] \<and>
   snd (clock_run (replicate (4 * nat (1 * 60) + 4 + 0) Step) (TimerThread 1)) =
     countdown (nat (1 * 60)) \<and>
   count_list (countdown (nat (1 * 60))) 0 = 1"
proof -
  have h: "stop_event (stop (TimerThread 1)) \<and> at (stop (TimerThread 1)) \<noteq> L25 \<and>
      at (stop (TimerThread 1)) \<noteq> L30"
    by (simp add: stop_def TimerThread_def)
  from callbacks_after_stop[of "stop (TimerThread 1)" "[Step, Step, Step]" 1 0] h
  show ?thesis by blast
qed

text \<open>The claim that no callback follows \<^verbatim>\<open>stop()\<close> fails: a Clock of one minute
  that has passed the test of line 24 is stopped, and then calls back with 60.\<close>

theorem callback_after_stop_counterexample:
  "snd (clock_run [Step, Step] (TimerThread 1)) = [] \<and>
   snd (clock_run [Step, Step, Stop, Step] (TimerThread 1)) = [60]"
  by (simp add: thread_step_def TimerThread_def stop_def)

section \<open>C2: natural expiry\<close>

lemmas session_defs = run_once_def activate_def getitem_def menu_options_def languages_def
  add_task_def start_timer_def pause_timer_def stop_timer_def timer_alive_def is_alive_def
  display_timer_def press_def keys

lemma scenario_A_eq:
  "scenario_A =
     (Looping,
      \<lparr>tasks = [\<lparr>title = ''Write parser'', description = ''impl'', duration = 25,
                 language = ''Python'', status = ''Not Started''\<rparr>],
       current_timer = None, threads = [], current_option = 0, current_language = 0,
       timer_win = None\<rparr>)"
  by (simp add: scenario_A_def add_parser_def init_app_def session_defs py_int_25)

lemma scenario_B_eq:
  "scenario_B =
     (Looping,
      \<lparr>tasks = [\<lparr>title = ''Write parser'', description = ''impl'', duration = 25,
                 language = ''Python'', status = ''In Progress''\<rparr>],
       current_timer = Some 0, threads = [TimerThread 25], current_option = 1,
       current_language = 0, timer_win = None\<rparr>)"
  by (simp add: scenario_B_def scenario_A_eq session_defs)

lemma last_countdown: "countdown n \<noteq> [] \<and> last (countdown n) = 0"
  by (simp add: countdown_def)

lemma expiry_session:
  assumes "i < length (threads s)" and "threads s ! i = TimerThread d"
  shows "exec (replicate (4 * nat (d * 60) + 4 + k) (Tick i)) (m, s) =
     (m, s\<lparr>threads := (threads s)[i := (TimerThread d)\<lparr>remaining := min 0 (d * 60), at := Finished\<rparr>],
           timer_win := Some 0\<rparr>)"
  using assms by (simp add: ticks_as_clock_run expiry_run last_countdown)

text \<open>
  C2, as the code has it. \<^verbatim>\<open>start_timer\<close> marks the last task as in progress and starts
  a Clock for its duration. When that Clock runs to its end with no stop (the number of
  statements below is what \<open>duration * 60\<close> passes of the loop take), the callbacks
  have counted down to the final tick 0, which is what the timer panel shows; the Clock
  is no longer alive and its stop signal is not set; and the task list is as
  \<^verbatim>\<open>start_timer\<close> left it: the status of the task is still \<^verbatim>\<open>In Progress\<close>. No statement
  of the program assigns any other status.
\<close>

theorem natural_expiry_keeps_status:
  assumes "tasks s \<noteq> []" and "\<not> timer_alive s"
  shows "status (last (tasks (start_timer s))) = ''In Progress'' \<and>
     current_timer (start_timer s) = Some (length (threads s)) \<and>
     (let s2 = snd (exec (replicate (4 * nat (duration (last (tasks s)) * 60) + 4)
                      (Tick (length (threads s)))) (m, start_timer s))
      in tasks s2 = tasks (start_timer s) \<and> timer_win s2 = Some 0 \<and>
         \<not> is_alive (threads s2 ! length (threads s)) \<and>
         \<not> stop_event (threads s2 ! length (threads s)) \<and>
         current_timer s2 = Some (length (threads s)))"
proof -
  let ?d = "duration (last (tasks s))"
  let ?i = "length (threads s)"
  have len: "?i < length (threads (start_timer s))"
    and nth: "threads (start_timer s) ! ?i = TimerThread ?d"
    and st: "status (last (tasks (start_timer s))) = ''In Progress''"
    and cur: "current_timer (start_timer s) = Some ?i"
    using assms by (simp_all add: start_timer_def)
  from expiry_session[OF len nth, of 0 m] st cur len
  show ?thesis by (simp add: is_alive_def TimerThread_def)
qed

theorem natural_expiry_keeps_status_witness:
  "tasks (snd scenario_A) \<noteq> [] \<and> \<not> timer_alive (snd scenario_A) \<and>
   duration (last (tasks (snd scenario_A))) = 25 \<and>
   status (last (tasks (start_timer (snd scenario_A)))) = ''In Progress'' \<and>
   current_timer (start_timer (snd scenario_A)) = Some (length (threads (snd scenario_A))) \<and>
   (let s2 = snd (exec (replicate (4 * nat (duration (last (tasks (snd scenario_A))) * 60) + 4)
                    (Tick (length (threads (snd scenario_A))))) (Looping, start_timer (snd scenario_A)))
    in tasks s2 = tasks (start_timer (snd scenario_A)) \<and> timer_win s2 = Some 0 \<and>
       \<not> is_alive (threads s2 ! length (threads (snd scenario_A))) \<and>
       \<not> stop_event (threads s2 ! length (threads (snd scenario_A))) \<and>
       current_timer s2 = Some (length (threads (snd scenario_A))))"
proof -
  have h1: "tasks (snd scenario_A) \<noteq> []" by (simp add: scenario_A_eq)
  have h2: "\<not> timer_alive (snd scenario_A)" by (simp add: scenario_A_eq timer_alive_def)
  have h3: "duration (last (tasks (snd scenario_A))) = 25" by (simp add: scenario_A_eq)
  from natural_expiry_keeps_status[OF h1 h2, of Looping] h1 h2 h3
  show ?thesis by blast
qed

text \<open>The claim that the task becomes Completed fails for the task of 25 minutes:
  after the 1500 ticks and the final tick (6004 statements of the Clock) its status is
  \<^verbatim>\<open>In Progress\<close>.\<close>

theorem expiry_completed_counterexample:
  "status (last (tasks (snd (exec (replicate 6004 (Tick 0)) scenario_B)))) = ''In Progress'' \<and>
   status (last (tasks (snd (exec (replicate 6004 (Tick 0)) scenario_B)))) \<noteq> ''Completed'' \<and>
   timer_win (snd (exec (replicate 6004 (Tick 0)) scenario_B)) = Some 0 \<and>
   at (threads (snd (exec (replicate 6004 (Tick 0)) scenario_B)) ! 0) = Finished \<and>
   \<not> stop_event (threads (snd (exec (replicate 6004 (Tick 0)) scenario_B)) ! 0)"
proof -
  have n: "(6004::nat) = 4 * nat (25 * 60) + 4 + 0" by simp
  have "exec (replicate 6004 (Tick 0)) scenario_B =
      (Looping, (snd scenario_B)\<lparr>threads := (threads (snd scenario_B))
          [0 := (TimerThread 25)\<lparr>remaining := min 0 (25 * 60), at := Finished\<rparr>],
          timer_win := Some 0\<rparr>)"
    unfolding n scenario_B_eq by (subst expiry_session[where d = 25]) simp_all
  then show ?thesis by (simp add: scenario_B_eq TimerThread_def)
qed

section \<open>The scenarios, evaluated\<close>

lemma exec_append: "exec (xs @ ys) w = exec ys (exec xs w)"
  by (induction xs arbitrary: w) simp_all

lemma ticked_41:
  "clock_run (replicate 41 Step) (TimerThread 25) =
     ((TimerThread 25)\<lparr>remaining := 1490, at := L24\<rparr>,
      [1500, 1499, 1498, 1497, 1496, 1495, 1494, 1493, 1492, 1491])"
  by (simp add: numeral_eq_Suc thread_step_def TimerThread_def)

lemma scenario_D_eq:
  "scenario_D =
     (Looping,
      \<lparr>tasks = [\<lparr>title = ''Write parser'', description = ''impl'', duration = 25,
                 language = ''Python'', status = ''In Progress''\<rparr>],
       current_timer = Some 0,
       threads = [(TimerThread 25)\<lparr>stop_event := True, remaining := 1490, at := L24\<rparr>],
       current_option = 3, current_language = 0, timer_win = Some 0\<rparr>)"
  unfolding scenario_D_def exec_append scenario_B_eq
  by (simp add: ticks_as_clock_run ticked_41 session_defs stop_def)

lemma scenario_D_ended_eq:
  "scenario_D_ended =
     (Looping,
      \<lparr>tasks = [\<lparr>title = ''Write parser'', description = ''impl'', duration = 25,
                 language = ''Python'', status = ''In Progress''\<rparr>],
       current_timer = Some 0,
       threads = [(TimerThread 25)\<lparr>stop_event := True, remaining := 1490, at := Finished\<rparr>],
       current_option = 3, current_language = 0, timer_win = Some 0\<rparr>)"
  unfolding scenario_D_ended_def scenario_D_eq
  by (simp add: tick_def thread_step_def TimerThread_def)

lemma py_int_5: "py_int ''5'' = Some 5"
  by (simp add: py_int_def strip_def is_space_def py_digits_def is_digit_def digit_val_def)

lemma scenario_second_task_eq:
  "scenario_second_task =
     (Looping,
      \<lparr>tasks = [\<lparr>title = ''Write parser'', description = ''impl'', duration = 25,
                 language = ''Python'', status = ''In Progress''\<rparr>,
                \<lparr>title = ''Write tests'', description = ''unit'', duration = 5,
                 language = ''Python'', status = ''In Progress''\<rparr>],
       current_timer = Some 1,
       threads = [(TimerThread 25)\<lparr>stop_event := True, remaining := 1490, at := Finished\<rparr>,
                  TimerThread 5],
       current_option = 1, current_language = 0, timer_win = Some 0\<rparr>)"
  unfolding scenario_second_task_def scenario_D_ended_eq
  by (simp add: session_defs py_int_5 TimerThread_def)


section \<open>C3: Stop Timer\<close>

lemma stop_event_step: "stop_event (fst (thread_step t)) = stop_event t"
  by (cases "at t") (simp_all add: thread_step_def)

lemma stopped_halts_5:
  "stop_event t \<Longrightarrow> at (fst (clock_run (replicate 5 Step) t)) = Finished"
  by (cases "at t") (simp_all add: numeral_eq_Suc thread_step_def)

lemma stopped_halts:
  assumes "stop_event t"
  shows "at (fst (clock_run (replicate (5 + k) Step) t)) = Finished"
proof -
  obtain t' cbs where r: "clock_run (replicate 5 Step) t = (t', cbs)"
    by (cases "clock_run (replicate 5 Step) t")
  with stopped_halts_5[OF assms] have "at t' = Finished" by simp
  with r show ?thesis
    by (simp add: replicate_add clock_run_append clock_run_Finished)
qed

text \<open>
  C3, as the code has it. Whenever the session has a current timer, \<^verbatim>\<open>stop_timer\<close> sets
  the stop signal of its Clock and shows a remaining time of 0. The Clock then comes to
  its end within five statements of its own and makes at most one more callback. The
  task list, and with it the status of the task the timer was started for, is
  unchanged, as are the reference to the current timer and the number of Clocks.
\<close>

theorem stop_timer_effect:
  assumes "current_timer s = Some i" and "i < length (threads s)"
  shows "stop_event (threads (stop_timer s) ! i) \<and> timer_win (stop_timer s) = Some 0 \<and>
     tasks (stop_timer s) = tasks s \<and> current_timer (stop_timer s) = current_timer s \<and>
     length (threads (stop_timer s)) = length (threads s) \<and>
     at (fst (clock_run (replicate (5 + k) Step) (threads (stop_timer s) ! i))) = Finished \<and>
     length (snd (clock_run es (threads (stop_timer s) ! i))) \<le> 1"
proof -
  have st: "stop_event (threads (stop_timer s) ! i)"
    using assms by (simp add: stop_timer_def display_timer_def stop_def)
  have frame: "timer_win (stop_timer s) = Some 0" "tasks (stop_timer s) = tasks s"
    "current_timer (stop_timer s) = current_timer s"
    "length (threads (stop_timer s)) = length (threads s)"
    using assms by (simp_all add: stop_timer_def display_timer_def)
  have "length (snd (clock_run es (threads (stop_timer s) ! i))) \<le> owed (threads (stop_timer s) ! i)"
    using st by (rule stopped_callbacks)
  also have "\<dots> \<le> 1" by (simp add: owed_def)
  finally have one: "length (snd (clock_run es (threads (stop_timer s) ! i))) \<le> 1" .
  from st frame one stopped_halts[OF st, of k] show ?thesis by simp
qed

theorem stop_timer_effect_witness:
  "current_timer (snd scenario_B) = Some 0 \<and> 0 < length (threads (snd scenario_B)) \<and>
   stop_event (threads (stop_timer (snd scenario_B)) ! 0) \<and>
   timer_win (stop_timer (snd scenario_B)) = Some 0 \<and>
   tasks (stop_timer (snd scenario_B)) = tasks (snd scenario_B) \<and>
   current_timer (stop_timer (snd scenario_B)) = current_timer (snd scenario_B) \<and>
   length (threads (stop_timer (snd scenario_B))) = length (threads (snd scenario_B)) \<and>
   at (fst (clock_run (replicate (5 + 0) Step) (threads (stop_timer (snd scenario_B)) ! 0))) = Finished \<and>
   length (snd (clock_run [Step, Step] (threads (stop_timer (snd scenario_B)) ! 0))) \<le> 1"
proof -
  have h1: "current_timer (snd scenario_B) = Some 0" by (simp add: scenario_B_eq)
  have h2: "0 < length (threads (snd scenario_B))" by (simp add: scenario_B_eq)
  from stop_timer_effect[OF h1 h2, of 0 "[Step, Step]"] h1 h2 show ?thesis by blast
qed

text \<open>The claim that the task becomes Stopped fails in scenario D: ten ticks after the
  start the timer is stopped from the menu; the stop signal is set and the panel shows
  0, and the status of the task is \<^verbatim>\<open>In Progress\<close>.\<close>

theorem stop_sets_stopped_counterexample:
  "fst scenario_D = Looping \<and>
   stop_event (threads (snd scenario_D) ! 0) \<and> timer_win (snd scenario_D) = Some 0 \<and>
   status (last (tasks (snd scenario_D))) = ''In Progress'' \<and>
   status (last (tasks (snd scenario_D))) \<noteq> ''Stopped''"
  by (simp add: scenario_D_eq)

section \<open>C6: Start Timer while a Clock is alive\<close>

text \<open>
  C6, as the code has it. The guard of \<^verbatim>\<open>start_timer\<close> is the Clock, not the status of a
  task: in every state whose current timer is alive, \<^verbatim>\<open>start_timer\<close> returns the state
  as it is (task list, timer, store of Clocks), also when it is activated from the menu,
  and no Clock is created.
\<close>

theorem start_timer_noop_while_alive:
  assumes "timer_alive s"
  shows "start_timer s = s \<and>
     (getitem menu_options (current_option s) = Inr ''Start Timer'' \<longrightarrow>
        exec_event (Key KEY_ENTER ans) (Looping, s) = (Looping, s)) \<and>
     alive_clocks (start_timer s) = alive_clocks s \<and>
     length (threads (start_timer s)) = length (threads s)"
proof -
  from assms have eq: "start_timer s = s" by (simp add: start_timer_def)
  have "getitem menu_options (current_option s) = Inr ''Start Timer'' \<longrightarrow>
        exec_event (Key KEY_ENTER ans) (Looping, s) = (Looping, s)"
    using eq by (simp add: run_once_def activate_def keys)
  with eq show ?thesis by simp
qed

theorem start_timer_noop_while_alive_witness:
  "timer_alive (snd scenario_B) \<and>
   getitem menu_options (current_option (snd scenario_B)) = Inr ''Start Timer'' \<and>
   start_timer (snd scenario_B) = snd scenario_B \<and>
   exec_event (Key KEY_ENTER ([], [], [], True)) (Looping, snd scenario_B) = (Looping, snd scenario_B) \<and>
   alive_clocks (start_timer (snd scenario_B)) = alive_clocks (snd scenario_B) \<and>
   length (threads (start_timer (snd scenario_B))) = length (threads (snd scenario_B))"
proof -
  have h1: "timer_alive (snd scenario_B)"
    by (simp add: scenario_B_eq timer_alive_def is_alive_def TimerThread_def)
  have h2: "getitem menu_options (current_option (snd scenario_B)) = Inr ''Start Timer''"
    by (simp add: scenario_B_eq getitem_def menu_options_def)
  from start_timer_noop_while_alive[OF h1, of "([], [], [], True)"] h1 h2 show ?thesis by blast
qed

text \<open>The claim fails where a task is in progress and its Clock has ended: after
  scenario D the only task is \<^verbatim>\<open>In Progress\<close>, and \<^verbatim>\<open>start_timer\<close> creates a second
  Clock and makes it the current timer.\<close>

theorem start_timer_in_progress_counterexample:
  "in_progress (snd scenario_D_ended) = 1 \<and>
   status (last (tasks (snd scenario_D_ended))) = ''In Progress'' \<and>
   start_timer (snd scenario_D_ended) \<noteq> snd scenario_D_ended \<and>
   length (threads (snd scenario_D_ended)) = 1 \<and>
   length (threads (start_timer (snd scenario_D_ended))) = 2 \<and>
   current_timer (snd scenario_D_ended) = Some 0 \<and>
   current_timer (start_timer (snd scenario_D_ended)) = Some 1"
  by (simp add: scenario_D_ended_eq in_progress_def start_timer_def timer_alive_def is_alive_def)

section \<open>C7: Exit\<close>

lemma exec_after_exit: "exec (map (\<lambda>(k, a). Key k a) ks) (Exited, s) = (Exited, s)"
  by (induction ks) (simp_all split: prod.splits)

text \<open>
  C7, as the code has it. The key \<open>q\<close>, and the Enter key on the menu entry
  \<^verbatim>\<open>Exit\<close>, end the loop of \<^verbatim>\<open>run\<close> and leave the state of the session as it is: no
  field is assigned, so a Clock that is running is not stopped. After the loop has
  ended no key is handled any more.
\<close>

theorem exit_ends_loop_only:
  "exec_event (Key KEY_q ans) (Looping, s) = (Exited, s) \<and>
   (getitem menu_options (current_option s) = Inr ''Exit'' \<longrightarrow>
      exec_event (Key KEY_ENTER ans) (Looping, s) = (Exited, s)) \<and>
   exec (map (\<lambda>(k, a). Key k a) ks) (Exited, s) = (Exited, s)"
proof -
  have q: "run_once s KEY_q ans = Break s"
    by (simp add: run_once_def keys)
  have enter: "getitem menu_options (current_option s) = Inr ''Exit'' \<longrightarrow>
      run_once s KEY_ENTER ans = Break s"
    by (simp add: run_once_def activate_def keys)
  from q enter show ?thesis by (simp add: exec_after_exit)
qed

lemma scenario_B_at_exit:
  "exec (replicate 5 (press KEY_DOWN)) scenario_B =
     (Looping, (snd scenario_B)\<lparr>current_option := 6\<rparr>)"
  by (simp add: scenario_B_eq numeral_eq_Suc session_defs)

theorem exit_ends_loop_only_witness:
  "getitem menu_options (current_option ((snd scenario_B)\<lparr>current_option := 6\<rparr>)) = Inr ''Exit'' \<and>
   exec_event (Key KEY_q ([], [], [], True)) (Looping, (snd scenario_B)\<lparr>current_option := 6\<rparr>) =
     (Exited, (snd scenario_B)\<lparr>current_option := 6\<rparr>) \<and>
   exec_event (Key KEY_ENTER ([], [], [], True)) (Looping, (snd scenario_B)\<lparr>current_option := 6\<rparr>) =
     (Exited, (snd scenario_B)\<lparr>current_option := 6\<rparr>) \<and>
   exec (map (\<lambda>(k, a). Key k a) [(KEY_UP, ([], [], [], True)), (KEY_ENTER, ([], [], [], True))])
     (Exited, (snd scenario_B)\<lparr>current_option := 6\<rparr>) =
     (Exited, (snd scenario_B)\<lparr>current_option := 6\<rparr>)"
proof -
  have h: "getitem menu_options (current_option ((snd scenario_B)\<lparr>current_option := 6\<rparr>)) = Inr ''Exit''"
    by (simp add: getitem_def menu_options_def)
  from exit_ends_loop_only[of "([], [], [], True)" "(snd scenario_B)\<lparr>current_option := 6\<rparr>"
      "[(KEY_UP, ([], [], [], True)), (KEY_ENTER, ([], [], [], True))]"] h
  show ?thesis by blast
qed

text \<open>The claim that a running Clock is stopped at exit fails in scenario B, for the
  key \<open>q\<close> and for the menu entry alike: the loop has ended, the Clock is alive and
  its stop signal is not set; three statements later it calls back with 1500.\<close>

theorem exit_stops_clock_counterexample:
  "fst (exec [press KEY_q] scenario_B) = Exited \<and>
   is_alive (threads (snd (exec [press KEY_q] scenario_B)) ! 0) \<and>
   \<not> stop_event (threads (snd (exec [press KEY_q] scenario_B)) ! 0) \<and>
   fst (exec (replicate 5 (press KEY_DOWN) @ [press KEY_ENTER]) scenario_B) = Exited \<and>
   is_alive (threads (snd (exec (replicate 5 (press KEY_DOWN) @ [press KEY_ENTER]) scenario_B)) ! 0) \<and>
   \<not> stop_event (threads (snd (exec (replicate 5 (press KEY_DOWN) @ [press KEY_ENTER]) scenario_B)) ! 0) \<and>
   timer_win (snd (exec [press KEY_q, Tick 0, Tick 0, Tick 0] scenario_B)) = Some 1500"
proof -
  have q: "exec [press KEY_q] scenario_B = (Exited, snd scenario_B)"
    by (simp add: scenario_B_eq session_defs)
  have e: "exec (replicate 5 (press KEY_DOWN) @ [press KEY_ENTER]) scenario_B =
      (Exited, (snd scenario_B)\<lparr>current_option := 6\<rparr>)"
    unfolding exec_append scenario_B_at_exit by (simp add: session_defs)
  have t: "timer_win (snd (exec [press KEY_q, Tick 0, Tick 0, Tick 0] scenario_B)) = Some 1500"
    by (simp add: scenario_B_eq session_defs tick_def thread_step_def TimerThread_def)
  from q e t show ?thesis
    by (simp add: scenario_B_eq is_alive_def TimerThread_def)
qed

section \<open>C1: tasks in progress\<close>

lemma alive_clocks_le_1: "app_ok s \<Longrightarrow> alive_clocks s \<le> 1"
proof -
  assume ok: "app_ok s"
  show ?thesis
  proof (cases "threads s = []")
    case True
    then show ?thesis by (simp add: alive_clocks_def)
  next
    case False
    then have "threads s = butlast (threads s) @ [last (threads s)]" by simp
    then have "alive_clocks s =
        length (filter is_alive (butlast (threads s))) + length (filter is_alive [last (threads s)])"
      unfolding alive_clocks_def by (metis filter_append length_append)
    moreover from ok have "filter is_alive (butlast (threads s)) = []"
      by (auto simp: app_ok_def is_alive_def list_all_iff filter_empty_conv)
    ultimately show ?thesis by simp
  qed
qed

lemma add_task_in_progress:
  "add_task s a b c saved = Inr s' \<Longrightarrow> in_progress s' = in_progress s"
  "add_task s a b c saved = Inl (e, s') \<Longrightarrow> in_progress s' = in_progress s"
  by (auto simp: add_task_def in_progress_def Let_def split: option.splits sum.splits if_splits)

lemma timer_ops_tasks:
  "tasks (pause_timer s) = tasks s" "tasks (stop_timer s) = tasks s"
  by (auto simp: pause_timer_def stop_timer_def display_timer_def split: option.splits)

lemma timer_ops_in_progress:
  "in_progress (pause_timer s) = in_progress s" "in_progress (stop_timer s) = in_progress s"
  by (simp_all add: in_progress_def timer_ops_tasks)

lemma activate_in_progress:
  assumes "timer_alive s"
    and "activate s ans = Continue s' \<or> activate s ans = Break s' \<or> activate s ans = Raise e s'"
  shows "in_progress s' = in_progress s"
proof -
  from assms(1) have "start_timer s = s" by (simp add: start_timer_def)
  with assms(2) show ?thesis
    by (auto simp: activate_def timer_ops_in_progress
        split: sum.splits prod.splits if_splits dest: add_task_in_progress)
qed

lemma event_in_progress:
  assumes "timer_alive s"
  shows "in_progress (snd (exec_event e (m, s))) = in_progress s"
proof (cases e)
  case (Key k ans)
  show ?thesis
  proof (cases m)
    case Looping
    with Key activate_in_progress[OF assms, of ans] show ?thesis
      by (auto simp: run_once_def in_progress_def split: outcome.splits)
  qed (simp_all add: Key)
next
  case (Tick i)
  then show ?thesis by (simp add: in_progress_def tick_fields)
qed

text \<open>
  C1, as the code has it. In every reachable session at most one Clock is alive, and
  there are never more tasks in progress than Clocks have been started. While the
  current Clock is alive no event, key or statement of a Clock, changes the number of
  tasks in progress: a task enters \<^verbatim>\<open>In Progress\<close> only when \<^verbatim>\<open>start_timer\<close> finds no
  Clock alive.
\<close>

theorem one_clock_alive:
  assumes "exec evs (Looping, init_app) = (m, s)"
  shows "alive_clocks s \<le> 1 \<and> in_progress s \<le> length (threads s) \<and>
     (timer_alive s \<longrightarrow> in_progress (snd (exec_event e (m, s))) = in_progress s)"
proof -
  from assms have ok: "app_ok s" using reachable_ok by blast
  then have "in_progress s \<le> length (threads s)" by (simp add: app_ok_def)
  with alive_clocks_le_1[OF ok] event_in_progress[of s e m] show ?thesis by blast
qed

lemma scenario_B_reached:
  "exec [add_parser, press KEY_DOWN, press KEY_ENTER] (Looping, init_app) =
     (Looping, snd scenario_B)"
proof -
  have "exec [add_parser, press KEY_DOWN, press KEY_ENTER] (Looping, init_app) = scenario_B"
    by (simp add: scenario_B_def scenario_A_def)
  then show ?thesis by (simp add: scenario_B_eq)
qed

theorem one_clock_alive_witness:
  "exec [add_parser, press KEY_DOWN, press KEY_ENTER] (Looping, init_app) =
     (Looping, snd scenario_B) \<and>
   timer_alive (snd scenario_B) \<and>
   alive_clocks (snd scenario_B) \<le> 1 \<and>
   in_progress (snd scenario_B) \<le> length (threads (snd scenario_B)) \<and>
   in_progress (snd (exec_event (press KEY_ENTER) (Looping, snd scenario_B))) =
     in_progress (snd scenario_B)"
proof -
  have h: "timer_alive (snd scenario_B)"
    by (simp add: scenario_B_eq timer_alive_def is_alive_def TimerThread_def)
  from one_clock_alive[OF scenario_B_reached, of "press KEY_ENTER"] scenario_B_reached h
  show ?thesis by blast
qed

text \<open>The claim that at most one task is in progress fails: the timer of the first
  task is stopped and its Clock ends, a second task is added and its timer started; both
  tasks are \<^verbatim>\<open>In Progress\<close>.\<close>

theorem two_in_progress_counterexample:
  "scenario_second_task =
     exec ([add_parser, press KEY_DOWN, press KEY_ENTER] @ replicate 41 (Tick 0) @
           [press KEY_DOWN, press KEY_DOWN, press KEY_ENTER, Tick 0, Tick 0,
            press KEY_UP, press KEY_UP, press KEY_UP,
            Key KEY_ENTER (''Write tests'', ''unit'', ''5'', True), press KEY_DOWN, press KEY_ENTER])
       (Looping, init_app) \<and>
   in_progress (snd scenario_second_task) = 2 \<and>
   map status (tasks (snd scenario_second_task)) = [''In Progress'', ''In Progress'']"
proof -
  have "scenario_second_task =
     exec ([add_parser, press KEY_DOWN, press KEY_ENTER] @ replicate 41 (Tick 0) @
           [press KEY_DOWN, press KEY_DOWN, press KEY_ENTER, Tick 0, Tick 0,
            press KEY_UP, press KEY_UP, press KEY_UP,
            Key KEY_ENTER (''Write tests'', ''unit'', ''5'', True), press KEY_DOWN, press KEY_ENTER])
       (Looping, init_app)"
    by (simp add: scenario_second_task_def scenario_D_ended_def scenario_D_def scenario_B_def
        scenario_A_def exec_append)
  moreover have "in_progress (snd scenario_second_task) = 2"
    by (simp add: scenario_second_task_eq in_progress_def)
  moreover have
    "map status (tasks (snd scenario_second_task)) = [''In Progress'', ''In Progress'']"
    by (simp add: scenario_second_task_eq)
  ultimately show ?thesis by blast
qed

section \<open>C4: which durations Add Task accepts\<close>

lemmas py_int_defs = py_int_def strip_def is_space_def py_digits_def is_digit_def digit_val_def

lemma py_int_samples:
  "py_int ''0'' = Some 0" "py_int ''-5'' = Some (- 5)" "py_int ''abc'' = None"
  "py_int ''2.5'' = None" "py_int [] = None" "py_int '' 25 '' = Some 25"
  "py_int [CHR 0x1F, CHR ''5''] = None" "py_int [CHR ''5'', CHR 0x1C] = None"
  by (simp_all add: py_int_defs)

lemma exec_crashed: "exec (map (Key k) anss) (Crashed e, s) = (Crashed e, s)"
  by (induction anss) simp_all

lemma add_from_menu:
  assumes "app_ok s" and "current_option s = 0"
  shows "\<exists>s'. exec_event (Key KEY_ENTER (ttl, desc, dur, saved)) (Looping, s) =
        (if py_int dur \<noteq> None \<and> \<not> saved then Crashed OSError else Looping, s') \<and>
     app_ok s' \<and> current_option s' = 0 \<and>
     length (tasks s') = length (tasks s) + (if py_int dur = None then 0 else 1)"
proof -
  have lang: "getitem languages (current_language s) = Inr (languages ! nat (current_language s))"
    using assms(1) by (simp add: app_ok_def getitem_languages)
  have menu: "getitem menu_options (current_option s) = Inr ''Add Task''"
    using assms(2) by (simp add: getitem_def menu_options_def)
  show ?thesis
  proof (cases "py_int dur")
    case None
    then have "exec_event (Key KEY_ENTER (ttl, desc, dur, saved)) (Looping, s) = (Looping, s)"
      using menu by (simp add: run_once_def activate_def add_task_def keys)
    with None assms show ?thesis by simp
  next
    case (Some d)
    let ?s' = "s\<lparr>tasks := tasks s @
        [\<lparr>title = ttl, description = desc, duration = d,
          language = languages ! nat (current_language s), status = ''Not Started''\<rparr>]\<rparr>"
    have "exec_event (Key KEY_ENTER (ttl, desc, dur, saved)) (Looping, s) =
        (if \<not> saved then Crashed OSError else Looping, ?s')"
      using menu lang Some by (simp add: run_once_def activate_def add_task_def keys)
    moreover have "app_ok ?s'" using assms(1) by (simp add: app_ok_def in_progress_def)
    ultimately show ?thesis using Some assms(2) by auto
  qed
qed

lemma adds_from_menu:
  "app_ok s \<Longrightarrow> current_option s = 0 \<Longrightarrow>
     length (tasks (snd (exec (map (Key KEY_ENTER) anss) (Looping, s)))) =
       length (tasks s) + appended anss"
proof (induction anss arbitrary: s)
  case Nil
  then show ?case by simp
next
  case (Cons a anss)
  obtain ttl desc dur saved where a: "a = (ttl, desc, dur, saved)" by (cases a)
  from add_from_menu[OF Cons.prems, of ttl desc dur saved] obtain s' where
    ev: "exec_event (Key KEY_ENTER (ttl, desc, dur, saved)) (Looping, s) =
        (if py_int dur \<noteq> None \<and> \<not> saved then Crashed OSError else Looping, s')"
    and ok: "app_ok s'" and opt: "current_option s' = 0"
    and len: "length (tasks s') = length (tasks s) + (if py_int dur = None then 0 else 1)"
    by blast
  show ?case
  proof (cases "py_int dur \<noteq> None \<and> \<not> saved")
    case True
    with ev len a show ?thesis by (auto simp: exec_crashed)
  next
    case False
    with ev have "exec_event (Key KEY_ENTER (ttl, desc, dur, saved)) (Looping, s) = (Looping, s')"
      by simp
    with Cons.IH[OF ok opt] len a False show ?thesis by auto
  qed
qed

lemma appended_all_saved:
  "list_all (\<lambda>(ttl, desc, dur, saved). saved) anss \<Longrightarrow>
     appended anss = length (filter (\<lambda>(ttl, desc, dur, saved). py_int dur \<noteq> None) anss)"
  by (induction anss) auto

text \<open>
  C4, as the code has it. In every reachable session, and for a duration text of ASCII
  characters, \<^verbatim>\<open>add_task\<close> appends a task exactly when \<^verbatim>\<open>int\<close> accepts the text: text it
  rejects leaves the session as it is, and text it accepts, whatever the sign of the
  number, appends one task that is \<^verbatim>\<open>Not Started\<close> and has that number as its duration;
  when the write of the record file then fails, the exception ends the session with
  the task appended. After any sequence of activations of \<^verbatim>\<open>Add Task\<close> the task list
  has grown by the number of accepted durations up to and including the first whose
  write fails: by the number of all accepted durations when every write succeeds.
\<close>

theorem add_task_appends_iff_int:
  assumes "exec evs (Looping, init_app) = (m, s)"
    and "ascii_text dur"
    and "list_all (\<lambda>(ttl, desc, dur, saved). ascii_text dur) anss"
  shows "(py_int dur = None \<longrightarrow> add_task s ttl desc dur saved = Inr s) \<and>
     (\<forall>d. py_int dur = Some d \<longrightarrow>
        (\<exists>s'. tasks s' = tasks s @
                 [\<lparr>title = ttl, description = desc, duration = d,
                   language = languages ! nat (current_language s),
                   status = ''Not Started''\<rparr>] \<and>
              add_task s ttl desc dur saved = (if saved then Inr s' else Inl (OSError, s')))) \<and>
     (current_option s = 0 \<longrightarrow>
        length (tasks (snd (exec (map (Key KEY_ENTER) anss) (Looping, s)))) =
          length (tasks s) + appended anss) \<and>
     (list_all (\<lambda>(ttl, desc, dur, saved). saved) anss \<longrightarrow>
        appended anss =
          length (filter (\<lambda>(ttl, desc, dur, saved). py_int dur \<noteq> None) anss))"
proof -
  from assms(1) have ok: "app_ok s" using reachable_ok by blast
  then have lang: "getitem languages (current_language s) = Inr (languages ! nat (current_language s))"
    by (simp add: app_ok_def getitem_languages)
  have none: "py_int dur = None \<longrightarrow> add_task s ttl desc dur saved = Inr s"
    by (simp add: add_task_def)
  have some: "\<forall>d. py_int dur = Some d \<longrightarrow>
        (\<exists>s'. tasks s' = tasks s @
                 [\<lparr>title = ttl, description = desc, duration = d,
                   language = languages ! nat (current_language s),
                   status = ''Not Started''\<rparr>] \<and>
              add_task s ttl desc dur saved = (if saved then Inr s' else Inl (OSError, s')))"
    using lang by (simp add: add_task_def)
  from none some adds_from_menu[OF ok] appended_all_saved show ?thesis by blast
qed

theorem add_task_appends_iff_int_witness:
  "exec [] (Looping, init_app) = (Looping, init_app) \<and>
   ascii_text ''abc'' \<and> ascii_text ''25'' \<and>
   list_all (\<lambda>(ttl, desc, dur, saved). ascii_text dur)
     [(''a'', ''b'', ''25'', True), (''c'', ''d'', ''abc'', True), (''e'', ''f'', ''-5'', True)] \<and>
   py_int ''abc'' = None \<and> add_task init_app ''Notes'' ''draft'' ''abc'' True = Inr init_app \<and>
   py_int ''25'' = Some 25 \<and>
   (\<exists>s'. tasks s' = tasks init_app @
        [\<lparr>title = ''Write parser'', description = ''impl'', duration = 25,
          language = languages ! nat (current_language init_app),
          status = ''Not Started''\<rparr>] \<and>
      add_task init_app ''Write parser'' ''impl'' ''25'' True =
        (if True then Inr s' else Inl (OSError, s'))) \<and>
   current_option init_app = 0 \<and>
   list_all (\<lambda>(ttl, desc, dur, saved). saved)
     [(''a'', ''b'', ''25'', True), (''c'', ''d'', ''abc'', True), (''e'', ''f'', ''-5'', True)] \<and>
   length (filter (\<lambda>(ttl, desc, dur, saved). py_int dur \<noteq> None)
     [(''a'', ''b'', ''25'', True), (''c'', ''d'', ''abc'', True), (''e'', ''f'', ''-5'', True)]) = 2 \<and>
   length (tasks (snd (exec (map (Key KEY_ENTER)
       [(''a'', ''b'', ''25'', True), (''c'', ''d'', ''abc'', True), (''e'', ''f'', ''-5'', True)])
       (Looping, init_app)))) =
     length (tasks init_app) +
     appended [(''a'', ''b'', ''25'', True), (''c'', ''d'', ''abc'', True), (''e'', ''f'', ''-5'', True)] \<and>
   appended [(''a'', ''b'', ''25'', True), (''c'', ''d'', ''abc'', True), (''e'', ''f'', ''-5'', True)] =
     length (filter (\<lambda>(ttl, desc, dur, saved). py_int dur \<noteq> None)
       [(''a'', ''b'', ''25'', True), (''c'', ''d'', ''abc'', True), (''e'', ''f'', ''-5'', True)])"
proof -
  let ?anss = "[(''a'', ''b'', ''25'', True), (''c'', ''d'', ''abc'', True), (''e'', ''f'', ''-5'', True)]"
  have h0: "exec [] (Looping, init_app) = (Looping, init_app)" by simp
  have a1: "ascii_text ''abc''" and a2: "ascii_text ''25''" by (simp_all add: ascii_text_def)
  have a3: "list_all (\<lambda>(ttl, desc, dur, saved). ascii_text dur) ?anss"
    by (simp add: ascii_text_def)
  have h1: "current_option init_app = 0" by (simp add: init_app_def)
  have h2: "list_all (\<lambda>(ttl, desc, dur, saved). saved) ?anss" by simp
  have h3: "length (filter (\<lambda>(ttl, desc, dur, saved). py_int dur \<noteq> None) ?anss) = 2"
    by (simp add: py_int_samples py_int_25)
  note t1 = add_task_appends_iff_int[OF h0 a1 a3, of "''Notes''" "''draft''" True]
  note t2 = add_task_appends_iff_int[OF h0 a2 a3, of "''Write parser''" "''impl''" True]
  from t1 py_int_samples(3)
  have a: "add_task init_app ''Notes'' ''draft'' ''abc'' True = Inr init_app" by blast
  from t2 py_int_25
  have b: "\<exists>s'. tasks s' = tasks init_app @
        [\<lparr>title = ''Write parser'', description = ''impl'', duration = 25,
          language = languages ! nat (current_language init_app),
          status = ''Not Started''\<rparr>] \<and>
      add_task init_app ''Write parser'' ''impl'' ''25'' True =
        (if True then Inr s' else Inl (OSError, s'))"
    by blast
  from t2 h1 h2
  have c: "length (tasks (snd (exec (map (Key KEY_ENTER) ?anss) (Looping, init_app)))) =
     length (tasks init_app) + appended ?anss"
    and d: "appended ?anss =
      length (filter (\<lambda>(ttl, desc, dur, saved). py_int dur \<noteq> None) ?anss)"
    by blast+
  from h0 a1 a2 a3 h1 h2 h3 a b c d py_int_samples(3) py_int_25 show ?thesis by blast
qed

text \<open>The claim that a duration that is not positive is rejected fails: the durations
  \<^verbatim>\<open>0\<close> and \<^verbatim>\<open>-5\<close> each create a task.\<close>

theorem nonpositive_duration_counterexample:
  "py_int ''0'' = Some 0 \<and>
   add_task init_app ''Break'' ''rest'' ''0'' True =
     Inr (init_app\<lparr>tasks := [\<lparr>title = ''Break'', description = ''rest'', duration = 0,
                                language = ''Python'', status = ''Not Started''\<rparr>]\<rparr>) \<and>
   py_int ''-5'' = Some (- 5) \<and>
   add_task init_app ''Break'' ''rest'' ''-5'' True =
     Inr (init_app\<lparr>tasks := [\<lparr>title = ''Break'', description = ''rest'', duration = - 5,
                                language = ''Python'', status = ''Not Started''\<rparr>]\<rparr>)"
  by (simp add: py_int_samples add_task_def getitem_def languages_def init_app_def)

section \<open>C9: what the report skips\<close>

lemma day_frames_append: "day_frames (xs @ ys) = day_frames xs @ day_frames ys"
  by (induction xs) (auto split: prod.splits)

lemma month_frames_append: "month_frames (xs @ ys) = month_frames xs @ month_frames ys"
  by (induction xs) (auto split: prod.splits)

lemma year_frames_append: "year_frames (xs @ ys) = year_frames xs @ year_frames ys"
  by (induction xs) (auto split: prod.splits)

lemma unreadable_skipped:
  "read_record n = None \<Longrightarrow>
   year_frames (ms1 @ (m, Dir (ds1 @ (d, Dir (fs1 @ (f, n) # fs2)) # ds2)) # ms2) =
   year_frames (ms1 @ (m, Dir (ds1 @ (d, Dir (fs1 @ fs2)) # ds2)) # ms2)"
  by (simp add: year_frames_append month_frames_append day_frames_append)

lemma length_day_frames: "length (day_frames files) = day_records files"
  by (induction files) (auto simp: day_records_def split: option.splits if_splits)

lemma length_month_frames: "length (month_frames days) = month_records days"
proof (induction days)
  case Nil
  then show ?case by (simp add: month_records_def)
next
  case (Cons e days)
  obtain day_dir n where e: "e = (day_dir, n)" by (cases e)
  with Cons show ?case
    by (cases n) (simp_all add: month_records_def length_day_frames)
qed

lemma length_year_frames: "length (year_frames months) = readable_records months"
proof (induction months)
  case Nil
  then show ?case by (simp add: readable_records_def)
next
  case (Cons e months)
  obtain month_dir n where e: "e = (month_dir, n)" by (cases e)
  with Cons show ?case
    by (cases n) (simp_all add: readable_records_def length_month_frames)
qed

text \<open>
  C9, as the code has it. When the path of the year does not exist, \<^verbatim>\<open>visualize_data\<close>
  returns at once: no message, no image. A record file whose read fails (\<^verbatim>\<open>pd.read_csv\<close>
  raises, or the date column is missing or does not convert) is skipped: the outcome is
  what it would be were the file not there. When no record file of the year can be
  read, the call returns before anything is plotted: no message, no image.
\<close>

theorem visualize_data_tolerant:
  "visualize_data plot None = Nothing \<and>
   (read_record n = None \<longrightarrow>
      visualize_data plot
        (Some (Dir (ms1 @ (m, Dir (ds1 @ (d, Dir (fs1 @ (f, n) # fs2)) # ds2)) # ms2))) =
      visualize_data plot
        (Some (Dir (ms1 @ (m, Dir (ds1 @ (d, Dir (fs1 @ fs2)) # ds2)) # ms2)))) \<and>
   (readable_records months = 0 \<longrightarrow> visualize_data plot (Some (Dir months)) = Nothing)"
proof -
  have a: "visualize_data plot None = Nothing" by (simp add: visualize_data_def)
  have b: "read_record n = None \<longrightarrow>
      visualize_data plot
        (Some (Dir (ms1 @ (m, Dir (ds1 @ (d, Dir (fs1 @ (f, n) # fs2)) # ds2)) # ms2))) =
      visualize_data plot
        (Some (Dir (ms1 @ (m, Dir (ds1 @ (d, Dir (fs1 @ fs2)) # ds2)) # ms2)))"
  proof
    assume "read_record n = None"
    then show "visualize_data plot
        (Some (Dir (ms1 @ (m, Dir (ds1 @ (d, Dir (fs1 @ (f, n) # fs2)) # ds2)) # ms2))) =
      visualize_data plot
        (Some (Dir (ms1 @ (m, Dir (ds1 @ (d, Dir (fs1 @ fs2)) # ds2)) # ms2)))"
      unfolding visualize_data_def by (simp only: unreadable_skipped option.case node.case)
  qed
  have c: "readable_records months = 0 \<longrightarrow> visualize_data plot (Some (Dir months)) = Nothing"
  proof
    assume "readable_records months = 0"
    then have "year_frames months = []" using length_year_frames[of months] by simp
    then show "visualize_data plot (Some (Dir months)) = Nothing"
      by (simp add: visualize_data_def)
  qed
  from a b c show ?thesis by blast
qed

lemmas year_defs = year_2026_def year_unreadable_def year_malformed_def year_mixed_def
  year_mixed_without_def good_file_def malformed_file_def full_columns_def

lemmas report_defs = visualize_data_def read_record_def endswith_def count_rows_def

theorem visualize_data_tolerant_witness:
  "visualize_data count_rows None = Nothing \<and>
   read_record (File None :: nat node) = None \<and>
   visualize_data count_rows (Some year_2026) = Saved 2 \<and>
   readable_records
     [(''November'', Dir [(''3'', Dir [(''2026-11-03_tasks.csv'', File None),
                                       (''notes.txt'', good_file)])]),
      (''December'', Dir [])] = 0 \<and>
   visualize_data count_rows (Some year_unreadable) = Nothing"
proof -
  have r: "read_record (File None :: nat node) = None" by (simp add: read_record_def)
  have h: "readable_records
     [(''November'', Dir [(''3'', Dir [(''2026-11-03_tasks.csv'', File None),
                                       (''notes.txt'', good_file)])]),
      (''December'', Dir [])] = 0"
    by (simp add: readable_records_def month_records_def day_records_def read_record_def
        endswith_def good_file_def)
  have good: "visualize_data count_rows
      (Some (Dir ([] @ (''November'',
           Dir ([] @ (''3'',
                 Dir ([(''2026-11-03_tasks.csv'', good_file)] @
                      [(''notes.txt'', good_file)])) # [])) #
          [(''Visualizations'', Dir [(''TaskVisualization_2026.png'', File None)])]))) = Saved 2"
    by (simp add: report_defs year_defs)
  note t = visualize_data_tolerant[of count_rows "File None" "[]" "''November''" "[]" "''3''"
      "[(''2026-11-03_tasks.csv'', good_file)]" "''2026-11-02_tasks.csv''"
      "[(''notes.txt'', good_file)]" "[]"
      "[(''Visualizations'', Dir [(''TaskVisualization_2026.png'', File None)])]"
      "[(''November'', Dir [(''3'', Dir [(''2026-11-03_tasks.csv'', File None),
                                         (''notes.txt'', good_file)])]),
        (''December'', Dir [])]"]
  from t have "visualize_data count_rows None = Nothing" by blast
  moreover from t r good have "visualize_data count_rows (Some year_2026) = Saved 2"
    by (simp add: year_2026_def)
  moreover from t h have "visualize_data count_rows (Some year_unreadable) = Nothing"
    by (simp add: year_unreadable_def)
  ultimately show ?thesis using h r by blast
qed

text \<open>The claim that a malformed record file is skipped fails for a file that reads
  and has its dates but lacks the column \<^verbatim>\<open>Bahasa\<close>. Alone in the year it makes the
  report end with a message and no image; beside a well-formed file its row is part of
  what is plotted (three rows, two without it).\<close>

theorem malformed_file_counterexample:
  "read_record malformed_file = Some \<lparr>columns = [''Tanggal'', ''Judul''], dates_ok = True, rows = [3]\<rparr> \<and>
   visualize_data count_rows (Some year_malformed) = Error_shown \<and>
   visualize_data count_rows (Some year_mixed) = Saved 3 \<and>
   visualize_data count_rows (Some year_mixed_without) = Saved 2"
  by (simp add: report_defs year_defs)

end
